theory Spec2Isabelle
  imports Main
begin

section \<open>JavaScript values\<close>

text \<open>
  The monitoring Lambda (\<^verbatim>\<open>src/monitoring/lambda/index.js\<close>) works on the untyped
  JSON-like objects that the AWS SDK returns. They are modelled as a value tree.
  An object is an association list in property order with distinct keys; a number is
  an integer below \<open>10\<^sup>2\<^sup>1\<close> in absolute value, which JavaScript prints in
  decimal digits (the only numbers the function computes are counts); a string is a list
  of characters, so well-formed text only.
\<close>

datatype jsval =
    JUndefined
  | JNull
  | JBool bool
  | JNum int
  | JStr string
  | JArr "jsval list"
  | JObj "(string \<times> jsval) list"

text \<open>
  A thrown value. \<^verbatim>\<open>TypeError\<close> is what the engine raises on a property read of
  \<^verbatim>\<open>undefined\<close>/\<^verbatim>\<open>null\<close>, on a call of a non-function and on iterating a
  non-iterable; \<^verbatim>\<open>AWSError\<close> is a rejected SDK promise. Both carry their
  \<^verbatim>\<open>message\<close>. The wording of a \<^verbatim>\<open>TypeError\<close> message is the engine's; the
  model follows V8.
\<close>

datatype exn = TypeError string | AWSError string

fun message :: "exn \<Rightarrow> string" where
  "message (TypeError m) = m"
| "message (AWSError m) = m"

definition dq :: char where
  "dq = CHR 0x22"

definition bs :: char where
  "bs = CHR 0x5C"

definition nl :: char where
  "nl = CHR 0x0A"

fun join :: "string \<Rightarrow> string list \<Rightarrow> string" where
  "join sep [] = []"
| "join sep [s] = s"
| "join sep (s # t # ss) = s @ sep @ join sep (t # ss)"

definition digit_char :: "nat \<Rightarrow> char" where
  "digit_char n = ''0123456789abcdef'' ! n"

fun string_of_nat :: "nat \<Rightarrow> string" where
  "string_of_nat n =
     (if n < 10 then [digit_char n]
      else string_of_nat (n div 10) @ [digit_char (n mod 10)])"

declare string_of_nat.simps [simp del]

definition string_of_int :: "int \<Rightarrow> string" where
  "string_of_int i =
     (if i < 0 then CHR ''-'' # string_of_nat (nat (- i)) else string_of_nat (nat i))"

text \<open>\<^verbatim>\<open>ToString\<close>, as a template literal \<^verbatim>\<open>`${v}`\<close> applies it.\<close>

fun js_toString :: "jsval \<Rightarrow> string"
  and js_toString_elems :: "jsval list \<Rightarrow> string list" where
  "js_toString JUndefined = ''undefined''"
| "js_toString JNull = ''null''"
| "js_toString (JBool b) = (if b then ''true'' else ''false'')"
| "js_toString (JNum n) = string_of_int n"
| "js_toString (JStr s) = s"
| "js_toString (JArr xs) = join '','' (js_toString_elems xs)"
| "js_toString (JObj kvs) = ''[object Object]''"
| "js_toString_elems [] = []"
| "js_toString_elems (x # xs) =
     (if x = JUndefined \<or> x = JNull then [] else js_toString x) # js_toString_elems xs"

text \<open>Truthiness of a value in a conditional (\<^verbatim>\<open>v ? a : b\<close>).\<close>

fun js_truthy :: "jsval \<Rightarrow> bool" where
  "js_truthy JUndefined = False"
| "js_truthy JNull = False"
| "js_truthy (JBool b) = b"
| "js_truthy (JNum n) = (n \<noteq> 0)"
| "js_truthy (JStr s) = (s \<noteq> [])"
| "js_truthy (JArr xs) = True"
| "js_truthy (JObj kvs) = True"

text \<open>
  The property read \<^verbatim>\<open>v.k\<close>. It throws on \<^verbatim>\<open>undefined\<close> and \<^verbatim>\<open>null\<close>; an
  object yields the property or \<^verbatim>\<open>undefined\<close>; any other value yields
  \<^verbatim>\<open>undefined\<close> for every key the function reads (none of them is a built-in
  property of arrays, strings, numbers or booleans).
\<close>

fun js_get :: "jsval \<Rightarrow> string \<Rightarrow> exn + jsval" where
  "js_get JUndefined k =
     Inl (TypeError (''Cannot read properties of undefined (reading '' @ [CHR 0x27] @ k @ [CHR 0x27] @ '')''))"
| "js_get JNull k =
     Inl (TypeError (''Cannot read properties of null (reading '' @ [CHR 0x27] @ k @ [CHR 0x27] @ '')''))"
| "js_get (JObj kvs) k = Inr (case map_of kvs k of None \<Rightarrow> JUndefined | Some v \<Rightarrow> v)"
| "js_get v k = Inr JUndefined"

text \<open>\<^verbatim>\<open>Array.prototype.some\<close>: left to right, stops at the first truthy answer, and
  an exception of the callback ends the loop.\<close>

fun array_some :: "(jsval \<Rightarrow> exn + bool) \<Rightarrow> jsval list \<Rightarrow> exn + bool" where
  "array_some cb [] = Inr False"
| "array_some cb (x # xs) =
     (case cb x of
        Inl e \<Rightarrow> Inl e
      | Inr b \<Rightarrow> if b then Inr True else array_some cb xs)"

text \<open>The method call \<^verbatim>\<open>v.some(cb)\<close> on an arbitrary value: only an array has the
  method. \<open>expr\<close> is the source text of \<^verbatim>\<open>v\<close>, which the engine's message quotes.\<close>

fun js_some :: "string \<Rightarrow> jsval \<Rightarrow> (jsval \<Rightarrow> exn + bool) \<Rightarrow> exn + bool" where
  "js_some expr (JArr xs) cb = array_some cb xs"
| "js_some expr JUndefined cb =
     Inl (TypeError ''Cannot read properties of undefined (reading 'some')'')"
| "js_some expr JNull cb =
     Inl (TypeError ''Cannot read properties of null (reading 'some')'')"
| "js_some expr v cb = Inl (TypeError (expr @ ''.some is not a function''))"

section \<open>Check results\<close>

datatype status = PASS | FAIL | ERROR

record verdict =
  name :: string
  status :: status
  details :: "string option"

record check =
  resourceType :: string
  resourceId :: jsval
  checks :: "verdict list"

definition push :: "check \<Rightarrow> verdict \<Rightarrow> check" where
  "push c v = c\<lparr>check.checks := check.checks c @ [v]\<rparr>"

section \<open>Security group check\<close>

definition cidr_is_open :: "jsval \<Rightarrow> exn + bool" where
  "cidr_is_open rng =
     (case js_get rng ''CidrIp'' of
        Inl e \<Rightarrow> Inl e
      | Inr c \<Rightarrow> Inr (c = JStr ''0.0.0.0/0''))"

definition perm_is_open :: "jsval \<Rightarrow> exn + bool" where
  "perm_is_open perm =
     (case js_get perm ''IpRanges'' of
        Inl e \<Rightarrow> Inl e
      | Inr ranges \<Rightarrow> js_some ''perm.IpRanges'' ranges cidr_is_open)"

definition checkSecurityGroup :: "jsval \<Rightarrow> exn + check" where
  "checkSecurityGroup sg =
     (case js_get sg ''GroupId'' of
        Inl e \<Rightarrow> Inl e
      | Inr gid \<Rightarrow>
          let chk = \<lparr>resourceType = ''SecurityGroup'', resourceId = gid, checks = []\<rparr> in
          (case js_get sg ''IpPermissions'' of
             Inl e \<Rightarrow> Inl e
           | Inr perms \<Rightarrow>
               (case js_some ''sg.IpPermissions'' perms perm_is_open of
                  Inl e \<Rightarrow> Inl e
                | Inr hasOpenPorts \<Rightarrow>
                    Inr (push chk
                      \<lparr>name = ''open-ports'',
                       status = (if hasOpenPorts then FAIL else PASS),
                       details = (if hasOpenPorts
                                  then Some ''Security group has ports open to 0.0.0.0/0''
                                  else None)\<rparr>))))"

section \<open>JSON.stringify and String.prototype.includes\<close>

definition hex2 :: "nat \<Rightarrow> string" where
  "hex2 n = [digit_char (n div 16), digit_char (n mod 16)]"

text \<open>The escape of one character inside a JSON string (\<^verbatim>\<open>QuoteJSONString\<close>).\<close>

definition quote_char :: "char \<Rightarrow> string" where
  "quote_char c =
     (if c = dq then [bs, dq]
      else if c = bs then [bs, bs]
      else if c = CHR 0x08 then [bs, CHR ''b'']
      else if c = CHR 0x09 then [bs, CHR ''t'']
      else if c = CHR 0x0A then [bs, CHR ''n'']
      else if c = CHR 0x0C then [bs, CHR ''f'']
      else if c = CHR 0x0D then [bs, CHR ''r'']
      else if (of_char c :: nat) < 32 then [bs, CHR ''u'', CHR ''0'', CHR ''0''] @ hex2 (of_char c)
      else [c])"

definition QuoteJSONString :: "string \<Rightarrow> string" where
  "QuoteJSONString s = dq # concat (map quote_char s) @ [dq]"

definition wrap :: "string \<Rightarrow> string \<Rightarrow> string \<Rightarrow> string \<Rightarrow> string list \<Rightarrow> string" where
  "wrap gap stepback opn cls partial =
     (if partial = [] then opn @ cls
      else if gap = [] then opn @ join '','' partial @ cls
      else opn @ [nl] @ stepback @ gap
           @ join ('','' @ [nl] @ stepback @ gap) partial
           @ [nl] @ stepback @ cls)"

text \<open>
  \<^verbatim>\<open>SerializeJSONProperty\<close> with its \<^verbatim>\<open>gap\<close> and current \<^verbatim>\<open>indent\<close>:
  \<^verbatim>\<open>undefined\<close> has no serialisation, is dropped from an object and is
  \<^verbatim>\<open>null\<close> in an array; with an empty gap nothing separates a key's colon from
  the value, otherwise one space does.
\<close>

fun SerializeJSONProperty :: "string \<Rightarrow> string \<Rightarrow> jsval \<Rightarrow> string option"
  and SerializeJSONArray :: "string \<Rightarrow> string \<Rightarrow> jsval list \<Rightarrow> string list"
  and SerializeJSONObject :: "string \<Rightarrow> string \<Rightarrow> (string \<times> jsval) list \<Rightarrow> string list" where
  "SerializeJSONProperty gap indent JUndefined = None"
| "SerializeJSONProperty gap indent JNull = Some ''null''"
| "SerializeJSONProperty gap indent (JBool b) = Some (if b then ''true'' else ''false'')"
| "SerializeJSONProperty gap indent (JNum n) = Some (string_of_int n)"
| "SerializeJSONProperty gap indent (JStr s) = Some (QuoteJSONString s)"
| "SerializeJSONProperty gap indent (JArr xs) =
     Some (wrap gap indent ''['' '']'' (SerializeJSONArray gap (indent @ gap) xs))"
| "SerializeJSONProperty gap indent (JObj kvs) =
     Some (wrap gap indent ''{'' ''}'' (SerializeJSONObject gap (indent @ gap) kvs))"
| "SerializeJSONArray gap indent [] = []"
| "SerializeJSONArray gap indent (x # xs) =
     (case SerializeJSONProperty gap indent x of
        None \<Rightarrow> ''null''
      | Some s \<Rightarrow> s) # SerializeJSONArray gap indent xs"
| "SerializeJSONObject gap indent [] = []"
| "SerializeJSONObject gap indent ((k, v) # kvs) =
     (case SerializeJSONProperty gap indent v of
        None \<Rightarrow> SerializeJSONObject gap indent kvs
      | Some s \<Rightarrow>
          (QuoteJSONString k @ '':'' @ (if gap = [] then [] else '' '') @ s)
          # SerializeJSONObject gap indent kvs)"

text \<open>\<^verbatim>\<open>JSON.stringify(v)\<close> and \<^verbatim>\<open>JSON.stringify(v, null, n)\<close>.\<close>

definition JSON_stringify :: "jsval \<Rightarrow> string option" where
  "JSON_stringify v = SerializeJSONProperty [] [] v"

definition JSON_stringify_indent :: "nat \<Rightarrow> jsval \<Rightarrow> string option" where
  "JSON_stringify_indent n v = SerializeJSONProperty (replicate (min n 10) CHR '' '') [] v"

fun starts_with :: "'a list \<Rightarrow> 'a list \<Rightarrow> bool" where
  "starts_with hay [] = True"
| "starts_with [] (n # ns) = False"
| "starts_with (h # hs) (n # ns) = (h = n \<and> starts_with hs ns)"

fun str_includes :: "string \<Rightarrow> string \<Rightarrow> bool" where
  "str_includes [] needle = (needle = [])"
| "str_includes (h # hs) needle = (starts_with (h # hs) needle \<or> str_includes hs needle)"

text \<open>The method call \<^verbatim>\<open>s.includes(needle)\<close> on what \<^verbatim>\<open>JSON.stringify\<close> returned.\<close>

definition js_includes :: "string option \<Rightarrow> string \<Rightarrow> exn + bool" where
  "js_includes s needle =
     (case s of
        None \<Rightarrow> Inl (TypeError ''Cannot read properties of undefined (reading 'includes')'')
      | Some hay \<Rightarrow> Inr (str_includes hay needle))"

text \<open>The values a \<^verbatim>\<open>for ... of\<close> loop visits; \<open>expr\<close> is the source text of the
  value looped over.\<close>

fun js_iterate :: "string \<Rightarrow> jsval \<Rightarrow> exn + jsval list" where
  "js_iterate expr (JArr xs) = Inr xs"
| "js_iterate expr (JStr s) = Inr (map (\<lambda>c. JStr [c]) s)"
| "js_iterate expr v = Inl (TypeError (expr @ '' is not iterable''))"

section \<open>The AWS services and the process\<close>

text \<open>
  The SDK calls are the function's collaborators. A read call is a function from its
  parameter object to the response or the rejection; the two publishing calls answer
  with the rejection, if any. The services do not change during one run.
\<close>

record aws =
  getBucketPublicAccessBlock :: "jsval \<Rightarrow> exn + jsval"
  getBucketEncryption :: "jsval \<Rightarrow> exn + jsval"
  listRolePolicies :: "jsval \<Rightarrow> exn + jsval"
  getRolePolicy :: "jsval \<Rightarrow> exn + jsval"
  describeCluster :: "jsval \<Rightarrow> exn + jsval"
  putMetricData :: "jsval \<Rightarrow> exn option"
  publish :: "jsval \<Rightarrow> exn option"

text \<open>
  What the function reads from and writes to its process: the clock
  (\<^verbatim>\<open>new Date().toISOString()\<close>), two environment variables, the error log, and the
  requests it has sent to CloudWatch and SNS. Time passes between two calls, as a
  change of \<open>now\<close>, not during one.
\<close>

record world =
  now :: string
  ENVIRONMENT :: jsval
  SNS_TOPIC_ARN :: jsval
  console_error :: "(string \<times> exn) list"
  metric_requests :: "jsval list"
  sns_requests :: "jsval list"

definition log_error :: "string \<Rightarrow> exn \<Rightarrow> world \<Rightarrow> world" where
  "log_error msg e w = w\<lparr>console_error := console_error w @ [(msg, e)]\<rparr>"

section \<open>Bucket, role and cluster checks\<close>

text \<open>
  Each of the three functions runs its checks inside one \<^verbatim>\<open>try\<close> block. The body
  is modelled by a function that returns the check record as it stands when the block
  is left, and the exception that left it, if any: a verdict pushed before the
  exception stays.
\<close>

definition s3_try :: "aws \<Rightarrow> jsval \<Rightarrow> check \<Rightarrow> check \<times> exn option" where
  "s3_try a nm chk =
     (case getBucketPublicAccessBlock a (JObj [(''Bucket'', nm)]) of
        Inl e \<Rightarrow> (chk, Some e)
      | Inr publicAccess \<Rightarrow>
     (case js_get publicAccess ''PublicAccessBlockConfiguration'' of
        Inl e \<Rightarrow> (chk, Some e)
      | Inr pab \<Rightarrow>
     (case js_get pab ''BlockPublicAcls'' of
        Inl e \<Rightarrow> (chk, Some e)
      | Inr blockPublicAcls \<Rightarrow>
          let chk1 = push chk
                \<lparr>name = ''public-access'',
                 status = (if js_truthy blockPublicAcls then PASS else FAIL),
                 details = Some ''Public access block configuration''\<rparr> in
     (case getBucketEncryption a (JObj [(''Bucket'', nm)]) of
        Inl e \<Rightarrow> (chk1, Some e)
      | Inr encryption \<Rightarrow>
     (case js_get encryption ''ServerSideEncryptionConfiguration'' of
        Inl e \<Rightarrow> (chk1, Some e)
      | Inr sse \<Rightarrow>
          (push chk1
             \<lparr>name = ''encryption'',
              status = (if js_truthy sse then PASS else FAIL),
              details = Some ''Default encryption configuration''\<rparr>, None))))))"

definition checkS3Bucket :: "aws \<Rightarrow> jsval \<Rightarrow> world \<Rightarrow> (exn + check) \<times> world" where
  "checkS3Bucket a bucket w =
     (case js_get bucket ''Name'' of
        Inl e \<Rightarrow> (Inl e, w)
      | Inr nm \<Rightarrow>
          let chk = \<lparr>resourceType = ''S3Bucket'', resourceId = nm, checks = []\<rparr> in
          (case s3_try a nm chk of
             (chk', None) \<Rightarrow> (Inr chk', w)
           | (chk', Some error) \<Rightarrow>
               (Inr (push chk'
                  \<lparr>name = ''bucket-check'', status = ERROR, details = Some (message error)\<rparr>),
                log_error (''Error checking bucket '' @ js_toString nm @ '':'') error w)))"

definition wildcard_needle :: string where
  "wildcard_needle = [dq] @ ''Action'' @ [dq] @ '': '' @ [dq] @ ''*'' @ [dq]"

fun role_policies_loop :: "aws \<Rightarrow> jsval \<Rightarrow> jsval list \<Rightarrow> check \<Rightarrow> check \<times> exn option" where
  "role_policies_loop a rn [] chk = (chk, None)"
| "role_policies_loop a rn (policyName # rest) chk =
     (case getRolePolicy a (JObj [(''RoleName'', rn), (''PolicyName'', policyName)]) of
        Inl e \<Rightarrow> (chk, Some e)
      | Inr policy \<Rightarrow>
     (case js_get policy ''PolicyDocument'' of
        Inl e \<Rightarrow> (chk, Some e)
      | Inr doc \<Rightarrow>
     (case js_includes (JSON_stringify doc) wildcard_needle of
        Inl e \<Rightarrow> (chk, Some e)
      | Inr hasWildcardPermissions \<Rightarrow>
          role_policies_loop a rn rest
            (push chk
               \<lparr>name = ''policy-'' @ js_toString policyName,
                status = (if hasWildcardPermissions then FAIL else PASS),
                details = (if hasWildcardPermissions
                           then Some ''Policy contains wildcard permissions''
                           else None)\<rparr>))))"

definition iam_try :: "aws \<Rightarrow> jsval \<Rightarrow> check \<Rightarrow> check \<times> exn option" where
  "iam_try a rn chk =
     (case listRolePolicies a (JObj [(''RoleName'', rn)]) of
        Inl e \<Rightarrow> (chk, Some e)
      | Inr policies \<Rightarrow>
     (case js_get policies ''PolicyNames'' of
        Inl e \<Rightarrow> (chk, Some e)
      | Inr policyNames \<Rightarrow>
     (case js_iterate ''policies.PolicyNames'' policyNames of
        Inl e \<Rightarrow> (chk, Some e)
      | Inr names \<Rightarrow> role_policies_loop a rn names chk)))"

definition checkIAMRole :: "aws \<Rightarrow> jsval \<Rightarrow> world \<Rightarrow> (exn + check) \<times> world" where
  "checkIAMRole a role w =
     (case js_get role ''RoleName'' of
        Inl e \<Rightarrow> (Inl e, w)
      | Inr rn \<Rightarrow>
          let chk = \<lparr>resourceType = ''IAMRole'', resourceId = rn, checks = []\<rparr> in
          (case iam_try a rn chk of
             (chk', None) \<Rightarrow> (Inr chk', w)
           | (chk', Some error) \<Rightarrow>
               (Inr (push chk'
                  \<lparr>name = ''role-check'', status = ERROR, details = Some (message error)\<rparr>),
                log_error (''Error checking role '' @ js_toString rn @ '':'') error w)))"

definition logging_enabled :: "jsval \<Rightarrow> exn + bool" where
  "logging_enabled l =
     (case js_get l ''enabled'' of
        Inl e \<Rightarrow> Inl e
      | Inr en \<Rightarrow> Inr (js_truthy en))"

definition cluster_field :: "jsval \<Rightarrow> string \<Rightarrow> exn + jsval" where
  "cluster_field cluster k =
     (case js_get cluster ''cluster'' of
        Inl e \<Rightarrow> Inl e
      | Inr c \<Rightarrow> js_get c k)"

definition eks_try :: "aws \<Rightarrow> jsval \<Rightarrow> check \<Rightarrow> check \<times> exn option" where
  "eks_try a clusterName chk =
     (case describeCluster a (JObj [(''name'', clusterName)]) of
        Inl e \<Rightarrow> (chk, Some e)
      | Inr cluster \<Rightarrow>
     (case cluster_field cluster ''resourcesVpcConfig'' of
        Inl e \<Rightarrow> (chk, Some e)
      | Inr vpc \<Rightarrow>
     (case js_get vpc ''endpointPrivateAccess'' of
        Inl e \<Rightarrow> (chk, Some e)
      | Inr endpointPrivateAccess \<Rightarrow>
          let chk1 = push chk
                \<lparr>name = ''private-endpoint'',
                 status = (if js_truthy endpointPrivateAccess then PASS else FAIL),
                 details = Some ''Private endpoint access configuration''\<rparr> in
     (case cluster_field cluster ''encryptionConfig'' of
        Inl e \<Rightarrow> (chk1, Some e)
      | Inr encryptionConfig \<Rightarrow>
          let chk2 = push chk1
                \<lparr>name = ''encryption'',
                 status = (if js_truthy encryptionConfig then PASS else FAIL),
                 details = Some ''Encryption configuration''\<rparr> in
     (case cluster_field cluster ''logging'' of
        Inl e \<Rightarrow> (chk2, Some e)
      | Inr lg \<Rightarrow>
     (case js_get lg ''clusterLogging'' of
        Inl e \<Rightarrow> (chk2, Some e)
      | Inr clusterLogging \<Rightarrow>
     (case js_some ''cluster.cluster.logging.clusterLogging'' clusterLogging logging_enabled of
        Inl e \<Rightarrow> (chk2, Some e)
      | Inr anyEnabled \<Rightarrow>
          (push chk2
             \<lparr>name = ''logging'',
              status = (if anyEnabled then PASS else FAIL),
              details = Some ''Control plane logging configuration''\<rparr>, None))))))))"

definition checkEKSCluster :: "aws \<Rightarrow> jsval \<Rightarrow> world \<Rightarrow> (exn + check) \<times> world" where
  "checkEKSCluster a clusterName w =
     (let chk = \<lparr>resourceType = ''EKSCluster'', resourceId = clusterName, checks = []\<rparr> in
      case eks_try a clusterName chk of
        (chk', None) \<Rightarrow> (Inr chk', w)
      | (chk', Some error) \<Rightarrow>
          (Inr (push chk'
             \<lparr>name = ''cluster-check'', status = ERROR, details = Some (message error)\<rparr>),
           log_error (''Error checking cluster '' @ js_toString clusterName @ '':'') error w))"

section \<open>The check run\<close>

record resources =
  securityGroups :: "jsval list"
  s3Buckets :: "jsval list"
  iamRoles :: "jsval list"
  eksClusters :: "jsval list"

record results =
  timestamp :: string
  environment :: jsval
  checks :: "check list"

text \<open>One \<^verbatim>\<open>for ... of\<close> loop of the run: each resource's check is appended to
  \<^verbatim>\<open>results.checks\<close>; an exception of a check function ends the run.\<close>

fun check_each ::
  "(jsval \<Rightarrow> world \<Rightarrow> (exn + check) \<times> world) \<Rightarrow> jsval list \<Rightarrow> results \<Rightarrow> world
     \<Rightarrow> (exn + results) \<times> world" where
  "check_each f [] res w = (Inr res, w)"
| "check_each f (x # xs) res w =
     (case f x w of
        (Inl e, w') \<Rightarrow> (Inl e, w')
      | (Inr c, w') \<Rightarrow> check_each f xs (res\<lparr>results.checks := results.checks res @ [c]\<rparr>) w')"

definition runSecurityChecks :: "aws \<Rightarrow> resources \<Rightarrow> world \<Rightarrow> (exn + results) \<times> world" where
  "runSecurityChecks a rs w =
     (let res = \<lparr>timestamp = now w, environment = ENVIRONMENT w, checks = []\<rparr> in
      case check_each (\<lambda>sg w. (checkSecurityGroup sg, w)) (securityGroups rs) res w of
        (Inl e, w1) \<Rightarrow> (Inl e, w1)
      | (Inr res1, w1) \<Rightarrow>
     (case check_each (checkS3Bucket a) (s3Buckets rs) res1 w1 of
        (Inl e, w2) \<Rightarrow> (Inl e, w2)
      | (Inr res2, w2) \<Rightarrow>
     (case check_each (checkIAMRole a) (iamRoles rs) res2 w2 of
        (Inl e, w3) \<Rightarrow> (Inl e, w3)
      | (Inr res3, w3) \<Rightarrow> check_each (checkEKSCluster a) (eksClusters rs) res3 w3)))"

section \<open>Publishing the results\<close>

fun status_string :: "status \<Rightarrow> string" where
  "status_string PASS = ''PASS''"
| "status_string FAIL = ''FAIL''"
| "status_string ERROR = ''ERROR''"

definition verdict_js :: "verdict \<Rightarrow> jsval" where
  "verdict_js v =
     JObj [(''name'', JStr (name v)),
           (''status'', JStr (status_string (status v))),
           (''details'', case details v of None \<Rightarrow> JNull | Some d \<Rightarrow> JStr d)]"

definition check_js :: "check \<Rightarrow> jsval" where
  "check_js c =
     JObj [(''resourceType'', JStr (resourceType c)),
           (''resourceId'', resourceId c),
           (''checks'', JArr (map verdict_js (check.checks c)))]"

definition results_js :: "results \<Rightarrow> jsval" where
  "results_js r =
     JObj [(''timestamp'', JStr (timestamp r)),
           (''environment'', environment r),
           (''checks'', JArr (map check_js (results.checks r)))]"

record alert =
  title :: string
  alert_message :: string
  severity :: string
  alert_details :: jsval

definition alert_payload :: "alert \<Rightarrow> world \<Rightarrow> jsval" where
  "alert_payload al w =
     JObj [(''message'', JStr (alert_message al)),
           (''severity'', JStr (severity al)),
           (''timestamp'', JStr (now w)),
           (''details'', alert_details al)]"

definition sendAlert :: "aws \<Rightarrow> alert \<Rightarrow> world \<Rightarrow> (exn + unit) \<times> world" where
  "sendAlert a al w =
     (let request =
            JObj [(''TopicArn'', SNS_TOPIC_ARN w),
                  (''Subject'', JStr (''['' @ severity al @ ''] '' @ title al)),
                  (''Message'',
                     case JSON_stringify_indent 2 (alert_payload al w) of
                       None \<Rightarrow> JUndefined
                     | Some s \<Rightarrow> JStr s)];
          w1 = w\<lparr>sns_requests := sns_requests w @ [request]\<rparr>
      in case publish a request of
           None \<Rightarrow> (Inr (), w1)
         | Some error \<Rightarrow> (Inl error, log_error ''Error sending alert:'' error w1))"

definition count_failures :: "results \<Rightarrow> nat" where
  "count_failures r =
     foldl (\<lambda>count c. count + length (filter (\<lambda>v. status v = FAIL) (check.checks c)))
       0 (results.checks r)"

definition metric_request :: "nat \<Rightarrow> world \<Rightarrow> jsval" where
  "metric_request failures w =
     JObj [(''Namespace'', JStr ''CloudSecDemo''),
           (''MetricData'', JArr [JObj
              [(''MetricName'', JStr ''SecurityCheckFailures''),
               (''Value'', JNum (int failures)),
               (''Unit'', JStr ''Count''),
               (''Dimensions'', JArr [JObj
                  [(''Name'', JStr ''Environment''),
                   (''Value'', ENVIRONMENT w)]])]])]"

definition processResults :: "aws \<Rightarrow> results \<Rightarrow> world \<Rightarrow> (exn + unit) \<times> world" where
  "processResults a r w =
     (let failures = count_failures r;
          request = metric_request failures w;
          w1 = w\<lparr>metric_requests := metric_requests w @ [request]\<rparr>
      in case putMetricData a request of
           Some error \<Rightarrow> (Inl error, w1)
         | None \<Rightarrow>
             if failures > 0
             then sendAlert a
                    \<lparr>title = ''Security Check Failures'',
                     alert_message = ''Found '' @ string_of_nat failures
                                     @ '' security check failures'',
                     severity = ''HIGH'',
                     alert_details = results_js r\<rparr> w1
             else (Inr (), w1))"

section \<open>Notions used to state the properties\<close>

text \<open>The outcome of a sequence of checks run one after the other: the first
  exception, or all the check records in order.\<close>

fun sequence_sum :: "(exn + check) list \<Rightarrow> exn + check list" where
  "sequence_sum [] = Inr []"
| "sequence_sum (Inl e # xs) = Inl e"
| "sequence_sum (Inr c # xs) =
     (case sequence_sum xs of
        Inl e \<Rightarrow> Inl e
      | Inr cs \<Rightarrow> Inr (c # cs))"

text \<open>The verdicts of a run, or the exception that ended it.\<close>

definition verdicts_of :: "(exn + results) \<times> world \<Rightarrow> exn + check list" where
  "verdicts_of out = (case fst out of Inl e \<Rightarrow> Inl e | Inr r \<Rightarrow> Inr (results.checks r))"


text \<open>
  A permission as the EC2 API describes it: its \<^verbatim>\<open>IpRanges\<close> is an array of range
  objects. Such a permission is open when one of its ranges has the \<^verbatim>\<open>CidrIp\<close>
  \<^verbatim>\<open>0.0.0.0/0\<close>.
\<close>

fun ip_ranges_of :: "exn + jsval \<Rightarrow> jsval list option" where
  "ip_ranges_of (Inr (JArr rs)) = Some rs"
| "ip_ranges_of other = None"

definition wellformed_permission :: "jsval \<Rightarrow> bool" where
  "wellformed_permission p =
     (case ip_ranges_of (js_get p ''IpRanges'') of
        None \<Rightarrow> False
      | Some rs \<Rightarrow> JUndefined \<notin> set rs \<and> JNull \<notin> set rs)"

definition open_permission :: "jsval \<Rightarrow> bool" where
  "open_permission p =
     (case ip_ranges_of (js_get p ''IpRanges'') of
        None \<Rightarrow> False
      | Some rs \<Rightarrow> (\<exists>r\<in>set rs. js_get r ''CidrIp'' = Inr (JStr ''0.0.0.0/0'')))"

text \<open>All verdicts of a run, resource after resource.\<close>

definition all_verdicts :: "results \<Rightarrow> verdict list" where
  "all_verdicts r = concat (map check.checks (results.checks r))"

text \<open>
  A scanner for the four characters \<^verbatim>\<open>n":\<close> followed by a space, which occur in
  the middle of the text that the role check searches. State 4 means that they have
  been read; states 1 to 3 count how many of them have just been read.
\<close>

definition scan_step :: "nat \<Rightarrow> char \<Rightarrow> nat" where
  "scan_step q c =
     (if q = 4 then 4
      else if c = CHR ''n'' then 1
      else if q = 1 \<and> c = dq then 2
      else if q = 2 \<and> c = CHR '':'' then 3
      else if q = 3 \<and> c = CHR '' '' then 4
      else 0)"

definition scan :: "nat \<Rightarrow> string \<Rightarrow> nat" where
  "scan q s = foldl scan_step q s"


section \<open>Example services and resources\<close>

text \<open>
  A small account used to run the functions on concrete inputs: the bucket's public
  access response carries no \<^verbatim>\<open>PublicAccessBlockConfiguration\<close>; every role has one
  inline policy \<^verbatim>\<open>admin\<close> whose document is
  \<^verbatim>\<open>{"Action": "*", "Effect": "Allow"}\<close>; the cluster has no private endpoint, no
  encryption configuration and its only logging entry is disabled.
\<close>

definition example_cluster :: jsval where
  "example_cluster =
     JObj [(''cluster'', JObj
        [(''resourcesVpcConfig'', JObj [(''endpointPrivateAccess'', JBool False)]),
         (''logging'', JObj [(''clusterLogging'',
            JArr [JObj [(''type'', JStr ''api''), (''enabled'', JBool False)]])])])]"

definition example_aws :: aws where
  "example_aws =
     \<lparr>getBucketPublicAccessBlock = (\<lambda>req. Inr (JObj [])),
      getBucketEncryption =
        (\<lambda>req. Inr (JObj [(''ServerSideEncryptionConfiguration'', JObj [])])),
      listRolePolicies = (\<lambda>req. Inr (JObj [(''PolicyNames'', JArr [JStr ''admin''])])),
      getRolePolicy =
        (\<lambda>req. Inr (JObj [(''PolicyDocument'',
           JObj [(''Action'', JStr ''*''), (''Effect'', JStr ''Allow'')])])),
      describeCluster = (\<lambda>req. Inr example_cluster),
      putMetricData = (\<lambda>req. None),
      publish = (\<lambda>req. None)\<rparr>"

definition example_world :: world where
  "example_world =
     \<lparr>now = ''2024-01-01T00:00:00.000Z'',
      ENVIRONMENT = JStr ''insecure'',
      SNS_TOPIC_ARN = JStr ''arn:aws:sns:us-east-1:000000000000:alerts'',
      console_error = [],
      metric_requests = [],
      sns_requests = []\<rparr>"

definition example_bucket :: jsval where
  "example_bucket = JObj [(''Name'', JStr ''cloudsecdemo-data'')]"

definition example_role :: jsval where
  "example_role = JObj [(''RoleName'', JStr ''cloudsecdemo-app'')]"

definition example_open_group :: jsval where
  "example_open_group =
     JObj [(''GroupId'', JStr ''sg-1''),
           (''IpPermissions'', JArr
              [JObj [(''IpRanges'', JArr [JObj [(''CidrIp'', JStr ''10.0.0.0/16'')]])],
               JObj [(''IpRanges'', JArr [JObj [(''CidrIp'', JStr ''0.0.0.0/0'')]])]])]"

definition example_results :: results where
  "example_results =
     \<lparr>timestamp = ''2024-01-01T00:00:00.000Z'',
      environment = JStr ''insecure'',
      checks =
        [\<lparr>resourceType = ''SecurityGroup'', resourceId = JStr ''sg-1'',
          checks = [\<lparr>name = ''open-ports'', status = FAIL,
                     details = Some ''Security group has ports open to 0.0.0.0/0''\<rparr>]\<rparr>,
         \<lparr>resourceType = ''S3Bucket'', resourceId = JStr ''cloudsecdemo-data'',
          checks = [\<lparr>name = ''bucket-check'', status = ERROR,
                     details = Some ''Access Denied''\<rparr>]\<rparr>]\<rparr>"

text \<open>The example account with CloudWatch rejecting every metric.\<close>

definition example_aws_metric_rejected :: aws where
  "example_aws_metric_rejected =
     example_aws\<lparr>putMetricData := (\<lambda>req. Some (AWSError ''Rate exceeded''))\<rparr>"


section \<open>The run as a sequence of independent checks\<close>

lemma checkS3Bucket_fst:
  "fst (checkS3Bucket a b w) =
     (case js_get b ''Name'' of
        Inl e \<Rightarrow> Inl e
      | Inr nm \<Rightarrow>
          Inr (case s3_try a nm \<lparr>resourceType = ''S3Bucket'', resourceId = nm, checks = []\<rparr> of
                 (c, None) \<Rightarrow> c
               | (c, Some e) \<Rightarrow>
                   push c \<lparr>name = ''bucket-check'', status = ERROR, details = Some (message e)\<rparr>))"
  by (simp add: checkS3Bucket_def Let_def split: sum.splits prod.splits option.splits)

lemma checkIAMRole_fst:
  "fst (checkIAMRole a r w) =
     (case js_get r ''RoleName'' of
        Inl e \<Rightarrow> Inl e
      | Inr rn \<Rightarrow>
          Inr (case iam_try a rn \<lparr>resourceType = ''IAMRole'', resourceId = rn, checks = []\<rparr> of
                 (c, None) \<Rightarrow> c
               | (c, Some e) \<Rightarrow>
                   push c \<lparr>name = ''role-check'', status = ERROR, details = Some (message e)\<rparr>))"
  by (simp add: checkIAMRole_def Let_def split: sum.splits prod.splits option.splits)

lemma checkEKSCluster_fst:
  "fst (checkEKSCluster a cn w) =
     Inr (case eks_try a cn \<lparr>resourceType = ''EKSCluster'', resourceId = cn, checks = []\<rparr> of
            (c, None) \<Rightarrow> c
          | (c, Some e) \<Rightarrow>
              push c \<lparr>name = ''cluster-check'', status = ERROR, details = Some (message e)\<rparr>)"
  by (simp add: checkEKSCluster_def Let_def split: sum.splits prod.splits option.splits)

lemma sequence_sum_append:
  "sequence_sum (xs @ ys) =
     (case sequence_sum xs of
        Inl e \<Rightarrow> Inl e
      | Inr cs \<Rightarrow> (case sequence_sum ys of Inl e \<Rightarrow> Inl e | Inr ds \<Rightarrow> Inr (cs @ ds)))"
proof (induction xs)
  case Nil
  show ?case by (simp split: sum.splits)
next
  case (Cons x xs)
  then show ?case by (cases x) (simp_all split: sum.splits)
qed

lemma check_each_verdicts:
  assumes indep: "\<And>x u v. fst (f x u) = fst (f x v)"
  shows "verdicts_of (check_each f xs res w) =
           (case sequence_sum (map (\<lambda>x. fst (f x w0)) xs) of
              Inl e \<Rightarrow> Inl e
            | Inr cs \<Rightarrow> Inr (results.checks res @ cs))"
proof (induction xs arbitrary: res w)
  case Nil
  show ?case by (simp add: verdicts_of_def)
next
  case (Cons x xs)
  obtain o1 w1 where fx: "f x w = (o1, w1)" by (cases "f x w")
  have o1: "fst (f x w0) = o1" using indep [of x w0 w] fx by simp
  show ?case
  proof (cases o1)
    case (Inl e)
    then show ?thesis using fx o1 by (simp add: verdicts_of_def)
  next
    case (Inr c)
    then show ?thesis using fx o1 Cons.IH [of "res\<lparr>results.checks := results.checks res @ [c]\<rparr>" w1]
      by (simp split: sum.splits)
  qed
qed

lemma run_verdicts:
  "verdicts_of (runSecurityChecks a rs w) =
     sequence_sum
       (map checkSecurityGroup (securityGroups rs)
        @ map (\<lambda>b. fst (checkS3Bucket a b w0)) (s3Buckets rs)
        @ map (\<lambda>r. fst (checkIAMRole a r w0)) (iamRoles rs)
        @ map (\<lambda>c. fst (checkEKSCluster a c w0)) (eksClusters rs))"
proof -
  let ?res = "\<lparr>timestamp = now w, environment = ENVIRONMENT w, checks = []\<rparr>"
  let ?f1 = "\<lambda>sg w. (checkSecurityGroup sg, w)"
  have v: "verdicts_of (q, u) = (case q of Inl e \<Rightarrow> Inl e | Inr r \<Rightarrow> Inr (results.checks r))" for q u
    by (simp add: verdicts_of_def)
  have s1: "verdicts_of (check_each ?f1 xs res u) =
      (case sequence_sum (map checkSecurityGroup xs) of Inl e \<Rightarrow> Inl e
        | Inr cs \<Rightarrow> Inr (results.checks res @ cs))" for xs res u
    using check_each_verdicts [of ?f1 xs res u w0] by simp
  have s2: "verdicts_of (check_each (checkS3Bucket a) xs res u) =
      (case sequence_sum (map (\<lambda>b. fst (checkS3Bucket a b w0)) xs) of Inl e \<Rightarrow> Inl e
        | Inr cs \<Rightarrow> Inr (results.checks res @ cs))" for xs res u
    by (rule check_each_verdicts) (simp add: checkS3Bucket_fst)
  have s3: "verdicts_of (check_each (checkIAMRole a) xs res u) =
      (case sequence_sum (map (\<lambda>b. fst (checkIAMRole a b w0)) xs) of Inl e \<Rightarrow> Inl e
        | Inr cs \<Rightarrow> Inr (results.checks res @ cs))" for xs res u
    by (rule check_each_verdicts) (simp add: checkIAMRole_fst)
  have s4: "verdicts_of (check_each (checkEKSCluster a) xs res u) =
      (case sequence_sum (map (\<lambda>b. fst (checkEKSCluster a b w0)) xs) of Inl e \<Rightarrow> Inl e
        | Inr cs \<Rightarrow> Inr (results.checks res @ cs))" for xs res u
    by (rule check_each_verdicts) (simp add: checkEKSCluster_fst)
  obtain q1 w1 where r1: "check_each ?f1 (securityGroups rs) ?res w = (q1, w1)"
    by (cases "check_each ?f1 (securityGroups rs) ?res w")
  show ?thesis
  proof (cases q1)
    case (Inl e)
    then show ?thesis using r1 s1 [of "securityGroups rs" ?res w]
      by (simp add: runSecurityChecks_def Let_def v sequence_sum_append split: sum.splits)
  next
    case q1: (Inr res1)
    obtain q2 w2 where r2: "check_each (checkS3Bucket a) (s3Buckets rs) res1 w1 = (q2, w2)"
      by (cases "check_each (checkS3Bucket a) (s3Buckets rs) res1 w1")
    show ?thesis
    proof (cases q2)
      case (Inl e)
      then show ?thesis using r1 q1 r2 s1 [of "securityGroups rs" ?res w] s2 [of "s3Buckets rs" res1 w1]
        by (simp add: runSecurityChecks_def Let_def v sequence_sum_append split: sum.splits)
    next
      case q2: (Inr res2)
      obtain q3 w3 where r3: "check_each (checkIAMRole a) (iamRoles rs) res2 w2 = (q3, w3)"
        by (cases "check_each (checkIAMRole a) (iamRoles rs) res2 w2")
      show ?thesis
      proof (cases q3)
        case (Inl e)
        then show ?thesis using r1 q1 r2 q2 r3 s1 [of "securityGroups rs" ?res w]
            s2 [of "s3Buckets rs" res1 w1] s3 [of "iamRoles rs" res2 w2]
          by (simp add: runSecurityChecks_def Let_def v sequence_sum_append split: sum.splits)
      next
        case q3: (Inr res3)
        then show ?thesis using r1 q1 r2 q2 r3 s1 [of "securityGroups rs" ?res w]
            s2 [of "s3Buckets rs" res1 w1] s3 [of "iamRoles rs" res2 w2]
            s4 [of "eksClusters rs" res3 w3]
          by (simp add: runSecurityChecks_def Let_def v sequence_sum_append split: sum.splits)
      qed
    qed
  qed
qed

section \<open>The shape of one resource's verdicts\<close>












section \<open>Single checks and the publication\<close>

lemma sequence_sum_insert:
  "sequence_sum (xs @ Inr c # ys) =
     (case sequence_sum (xs @ ys) of
        Inl e \<Rightarrow> Inl e
      | Inr cs \<Rightarrow> Inr (take (length xs) cs @ c # drop (length xs) cs))"
proof (induction xs)
  case Nil
  show ?case by (simp split: sum.splits)
next
  case (Cons x xs)
  then show ?case by (cases x) (auto split: sum.splits)
qed

lemma checkS3Bucket_missing_block:
  assumes "js_get bucket ''Name'' = Inr nm"
    and "getBucketPublicAccessBlock a (JObj [(''Bucket'', nm)]) = Inr publicAccess"
    and "js_get publicAccess ''PublicAccessBlockConfiguration'' = Inr JUndefined"
  shows "checkS3Bucket a bucket w =
           (Inr \<lparr>resourceType = ''S3Bucket'', resourceId = nm,
                 checks = [\<lparr>name = ''bucket-check'', status = ERROR,
                            details = Some ''Cannot read properties of undefined (reading 'BlockPublicAcls')''\<rparr>]\<rparr>,
            log_error (''Error checking bucket '' @ js_toString nm @ '':'')
              (TypeError ''Cannot read properties of undefined (reading 'BlockPublicAcls')'') w)"
  using assms by (simp add: checkS3Bucket_def s3_try_def push_def)

lemma foldl_count_failures:
  "foldl (\<lambda>count c. count + length (filter P (check.checks c))) n cs =
     n + length (filter P (concat (map check.checks cs)))"
  by (induction cs arbitrary: n) simp_all

lemma count_failures_eq:
  "count_failures r = length (filter (\<lambda>v. status v = FAIL) (all_verdicts r))"
  by (simp add: count_failures_def all_verdicts_def foldl_count_failures)

lemma sendAlert_metric_requests:
  "metric_requests (snd (sendAlert a al w)) = metric_requests w"
  by (simp add: sendAlert_def log_error_def Let_def split: option.splits)

lemma serialize_object_some:
  "\<exists>s. JSON_stringify_indent n (JObj kvs) = Some s"
  by (simp add: JSON_stringify_indent_def)

lemma js_get_defined:
  "r \<noteq> JUndefined \<Longrightarrow> r \<noteq> JNull \<Longrightarrow> \<exists>v. js_get r k = Inr v"
  by (cases r) simp_all

lemma array_some_cidr:
  "JUndefined \<notin> set rs \<Longrightarrow> JNull \<notin> set rs \<Longrightarrow>
     array_some cidr_is_open rs = Inr (\<exists>r\<in>set rs. js_get r ''CidrIp'' = Inr (JStr ''0.0.0.0/0''))"
proof (induction rs)
  case Nil
  show ?case by simp
next
  case (Cons r rs)
  then obtain v where v: "js_get r ''CidrIp'' = Inr v"
    using js_get_defined [of r "''CidrIp''"] by auto
  with Cons show ?case by (auto simp: cidr_is_open_def)
qed

lemma perm_is_open_wellformed:
  assumes "wellformed_permission p"
  shows "perm_is_open p = Inr (open_permission p)"
proof -
  from assms obtain rs where rs: "js_get p ''IpRanges'' = Inr (JArr rs)"
    "JUndefined \<notin> set rs" "JNull \<notin> set rs"
    by (auto simp: wellformed_permission_def split: option.splits elim: ip_ranges_of.elims)
  then show ?thesis
    by (simp add: perm_is_open_def open_permission_def array_some_cidr)
qed

lemma array_some_perms:
  "\<forall>p\<in>set perms. wellformed_permission p \<Longrightarrow>
     array_some perm_is_open perms = Inr (\<exists>p\<in>set perms. open_permission p)"
  by (induction perms) (auto simp: perm_is_open_wellformed)


section \<open>The role check never finds its search text\<close>

text \<open>
  \<^verbatim>\<open>JSON.stringify\<close> without indentation puts nothing between the colon after a
  key and the value, and escapes every quotation mark inside a string. Its output
  therefore never holds the characters \<^verbatim>\<open>n":\<close> followed by a space, and never
  the text \<^verbatim>\<open>"Action": "*"\<close> that the role check searches: whatever the policy
  document, no verdict of the role check is FAIL.
\<close>

lemma scan_Nil [simp]: "scan q [] = q"
  by (simp add: scan_def)

lemma scan_Cons [simp]: "scan q (c # s) = scan (scan_step q c) s"
  by (simp add: scan_def)

lemma scan_append [simp]: "scan q (s @ t) = scan (scan q s) t"
  by (simp add: scan_def)

lemma scan_found [simp]: "scan 4 s = 4"
  by (induction s) (simp_all add: scan_step_def)

lemma starts_with_iff: "starts_with s n \<longleftrightarrow> (\<exists>v. s = n @ v)"
proof (induction s n rule: starts_with.induct)
  case (1 hay)
  show ?case by simp
next
  case (2 n ns)
  show ?case by simp
next
  case (3 h hs n ns)
  then show ?case by auto
qed

lemma str_includes_iff: "str_includes s n \<longleftrightarrow> (\<exists>u v. s = u @ n @ v)"
proof (induction s)
  case Nil
  show ?case by auto
next
  case (Cons h hs)
  show ?case
  proof
    assume "str_includes (h # hs) n"
    then consider "starts_with (h # hs) n" | "str_includes hs n" by auto
    then show "\<exists>u v. h # hs = u @ n @ v"
    proof cases
      case 1
      then obtain v where "h # hs = n @ v" using starts_with_iff by blast
      then have "h # hs = [] @ n @ v" by simp
      then show ?thesis by blast
    next
      case 2
      then obtain u v where "hs = u @ n @ v" using Cons.IH by blast
      then have "h # hs = (h # u) @ n @ v" by simp
      then show ?thesis by blast
    qed
  next
    assume "\<exists>u v. h # hs = u @ n @ v"
    then obtain u v where uv: "h # hs = u @ n @ v" by blast
    show "str_includes (h # hs) n"
    proof (cases u)
      case Nil
      then have "starts_with (h # hs) n" using uv starts_with_iff by auto
      then show ?thesis by simp
    next
      case (Cons a u')
      then have "hs = u' @ n @ v" using uv by simp
      then have "str_includes hs n" using Cons.IH by blast
      then show ?thesis by simp
    qed
  qed
qed

lemma str_includes_middle:
  "str_includes s (a @ b @ c) \<Longrightarrow> str_includes s b"
proof -
  assume "str_includes s (a @ b @ c)"
  then obtain u v where "s = u @ (a @ b @ c) @ v" using str_includes_iff by blast
  then have "s = (u @ a) @ b @ (c @ v)" by simp
  then show ?thesis using str_includes_iff by blast
qed

lemma scan_includes:
  "str_includes s [CHR ''n'', dq, CHR '':'', CHR '' ''] \<Longrightarrow> scan q s = 4"
proof -
  assume "str_includes s [CHR ''n'', dq, CHR '':'', CHR '' '']"
  then obtain u v where s: "s = u @ [CHR ''n'', dq, CHR '':'', CHR '' ''] @ v"
    using str_includes_iff by blast
  have "scan r (CHR ''n'' # dq # CHR '':'' # CHR '' '' # v) = 4" for r
    by (simp add: scan_step_def dq_def)
  then show ?thesis by (simp add: s del: scan_Cons)
qed

lemma needle_not_found:
  "scan q s \<noteq> 4 \<Longrightarrow> \<not> str_includes s wildcard_needle"
proof
  assume q: "scan q s \<noteq> 4" and "str_includes s wildcard_needle"
  then have "str_includes s ((dq # ''Actio'') @ [CHR ''n'', dq, CHR '':'', CHR '' ''] @ [dq, CHR ''*'', dq])"
    by (simp add: wildcard_needle_def)
  then have "str_includes s [CHR ''n'', dq, CHR '':'', CHR '' '']"
    by (rule str_includes_middle)
  then show False using q scan_includes by blast
qed

lemma scan_step_plain:
  "c \<noteq> CHR ''n'' \<Longrightarrow> c \<noteq> dq \<Longrightarrow> c \<noteq> CHR '':'' \<Longrightarrow> c \<noteq> CHR '' '' \<Longrightarrow>
     scan_step q c = (if q = 4 then 4 else 0)"
  by (simp add: scan_step_def)

lemma digit_char_plain:
  assumes "k < 16"
  shows "digit_char k \<notin> {CHR ''n'', dq, CHR '':'', CHR '' ''}"
proof -
  have "length ''0123456789abcdef'' = 16" by simp
  then have "k < length ''0123456789abcdef''" using assms by (simp only:)
  then have "digit_char k \<in> set ''0123456789abcdef''"
    unfolding digit_char_def by (rule nth_mem)
  then show ?thesis by (auto simp: dq_def)
qed

lemma scan_digit:
  "k < 16 \<Longrightarrow> q \<noteq> 4 \<Longrightarrow> scan_step q (digit_char k) = 0"
  using digit_char_plain [of k] by (simp add: scan_step_plain)

lemma scan_string_of_nat:
  "q \<noteq> 4 \<Longrightarrow> scan q (string_of_nat n) = 0"
proof (induction n arbitrary: q rule: string_of_nat.induct)
  case (1 n)
  show ?case
  proof (cases "n < 10")
    case True
    then show ?thesis using "1.prems" by (subst string_of_nat.simps) (simp add: scan_digit)
  next
    case False
    then have "scan q (string_of_nat (n div 10)) = 0" using "1.IH" "1.prems" by simp
    then show ?thesis using False
      by (subst string_of_nat.simps) (simp add: scan_digit)
  qed
qed

lemma scan_string_of_int:
  "q \<noteq> 4 \<Longrightarrow> scan q (string_of_int i) = 0"
  by (simp add: string_of_int_def scan_string_of_nat scan_step_def dq_def)

lemma scan_quote_char:
  "r \<in> {0, 1} \<Longrightarrow> scan r (quote_char c) \<in> {0, 1}"
proof -
  assume r: "r \<in> {0, 1}"
  have hex: "scan 0 (hex2 (of_char c)) = 0" if "(of_char c :: nat) < 32"
  proof -
    have "(of_char c :: nat) div 16 < 16" using that by simp
    moreover have "(of_char c :: nat) mod 16 < 16" by simp
    ultimately show ?thesis by (simp add: hex2_def scan_digit)
  qed
  show ?thesis using r hex
    by (auto simp: quote_char_def scan_step_def dq_def bs_def)
qed

lemma scan_quoted_content:
  "r \<in> {0, 1} \<Longrightarrow> scan r (concat (map quote_char s)) \<in> {0, 1}"
proof (induction s arbitrary: r)
  case Nil
  then show ?case by simp
next
  case (Cons c s)
  from scan_quote_char [OF Cons.prems, of c] have "scan r (quote_char c) \<in> {0, 1}" .
  from Cons.IH [OF this] show ?case by simp
qed

lemma scan_QuoteJSONString:
  assumes "q \<in> {0, 3}"
  shows "scan q (QuoteJSONString s) \<in> {0, 2}"
proof -
  have "scan_step q dq = 0" using assms by (auto simp: scan_step_def dq_def)
  moreover have "scan 0 (concat (map quote_char s)) \<in> {0, 1}"
    by (rule scan_quoted_content) simp
  ultimately show ?thesis by (auto simp: QuoteJSONString_def scan_step_def dq_def)
qed

lemma scan_join:
  assumes "\<And>e. e \<in> set es \<Longrightarrow> scan 0 e \<in> {0, 2}"
  shows "scan 0 (join '','' es) \<in> {0, 2}"
  using assms
proof (induction es rule: induct_list012)
  case 1
  show ?case by simp
next
  case (2 s)
  then show ?case by simp
next
  case (3 s t ss)
  have "scan 0 s \<in> {0, 2}" using "3.prems" by simp
  then have "scan_step (scan 0 s) CHR '','' = 0" by (auto simp: scan_step_def dq_def)
  moreover have "scan 0 (join '','' (t # ss)) \<in> {0, 2}" using 3 by simp
  ultimately show ?case by simp
qed

lemma scan_wrap:
  assumes q: "q \<in> {0, 3}"
    and opn: "opn \<in> {''['', ''{''}" and cls: "cls \<in> {'']'', ''}''}"
    and parts: "\<And>e. e \<in> set partial \<Longrightarrow> scan 0 e \<in> {0, 2}"
  shows "scan q (wrap [] stepback opn cls partial) = 0"
proof -
  have o: "scan q opn = 0" using q opn by (auto simp: scan_step_def dq_def)
  have c: "scan r cls = 0" if "r \<in> {0, 2}" for r
    using that cls by (auto simp: scan_step_def dq_def)
  show ?thesis
  proof (cases "partial = []")
    case True
    then show ?thesis using o c [of 0] by (simp add: wrap_def)
  next
    case False
    have "scan 0 (join '','' partial) \<in> {0, 2}" using parts by (rule scan_join)
    then show ?thesis using False o c by (simp add: wrap_def)
  qed
qed

lemma scan_keywords:
  assumes "q \<in> {0, 3}"
  shows "scan q ''null'' = 0" and "scan q ''true'' = 0" and "scan q ''false'' = 0"
  using assms by (auto simp: scan_step_def dq_def)

lemma serialize_scan:
  "gap = [] \<longrightarrow>
     (\<forall>s q. SerializeJSONProperty gap indent v = Some s \<longrightarrow> q \<in> {0, 3} \<longrightarrow> scan q s \<in> {0, 2})"
  "gap = [] \<longrightarrow>
     (\<forall>e q. e \<in> set (SerializeJSONArray gap indent xs) \<longrightarrow> q \<in> {0, 3} \<longrightarrow> scan q e \<in> {0, 2})"
  "gap = [] \<longrightarrow>
     (\<forall>p. p \<in> set (SerializeJSONObject gap indent kvs) \<longrightarrow> scan 0 p \<in> {0, 2})"
proof (induction gap indent v and gap indent xs and gap indent kvs
    rule: SerializeJSONProperty_SerializeJSONArray_SerializeJSONObject.induct)
  case (1 gap indent)
  show ?case by simp
next
  case (2 gap indent)
  show ?case using scan_keywords(1) by auto
next
  case (3 gap indent b)
  show ?case using scan_keywords(2,3) by auto
next
  case (4 gap indent n)
  show ?case by (auto simp: scan_string_of_int)
next
  case (5 gap indent s)
  show ?case using scan_QuoteJSONString by auto
next
  case (6 gap indent xs)
  show ?case
  proof (intro impI allI)
    fix s q
    assume g: "gap = []" and s: "SerializeJSONProperty gap indent (JArr xs) = Some s"
      and q: "q \<in> {0 :: nat, 3}"
    have "scan 0 e \<in> {0, 2}" if "e \<in> set (SerializeJSONArray gap (indent @ gap) xs)" for e
      using 6 g that by auto
    then have "scan q (wrap [] indent ''['' '']'' (SerializeJSONArray gap (indent @ gap) xs)) = 0"
      using q by (intro scan_wrap) simp_all
    then show "scan q s \<in> {0, 2}" using s g by auto
  qed
next
  case (7 gap indent kvs)
  show ?case
  proof (intro impI allI)
    fix s q
    assume g: "gap = []" and s: "SerializeJSONProperty gap indent (JObj kvs) = Some s"
      and q: "q \<in> {0 :: nat, 3}"
    have "scan 0 e \<in> {0, 2}" if "e \<in> set (SerializeJSONObject gap (indent @ gap) kvs)" for e
      using 7 g that by auto
    then have "scan q (wrap [] indent ''{'' ''}'' (SerializeJSONObject gap (indent @ gap) kvs)) = 0"
      using q by (intro scan_wrap) simp_all
    then show "scan q s \<in> {0, 2}" using s g by auto
  qed
next
  case (8 gap indent)
  show ?case by simp
next
  case (9 gap indent x xs)
  show ?case
  proof (intro impI allI)
    fix e q
    assume g: "gap = []" and e: "e \<in> set (SerializeJSONArray gap indent (x # xs))"
      and q: "q \<in> {0 :: nat, 3}"
    from e consider
        "e = (case SerializeJSONProperty gap indent x of None \<Rightarrow> ''null'' | Some s \<Rightarrow> s)"
      | "e \<in> set (SerializeJSONArray gap indent xs)" by auto
    then show "scan q e \<in> {0, 2}"
    proof cases
      case 1
      show ?thesis
      proof (cases "SerializeJSONProperty gap indent x")
        case None
        then show ?thesis using 1 q scan_keywords(1) [of q] by simp
      next
        case (Some s)
        then show ?thesis using 1 q g "9.IH"(1) by auto
      qed
    next
      case 2
      then show ?thesis using q g "9.IH"(2) by auto
    qed
  qed
next
  case (10 gap indent)
  show ?case by simp
next
  case (11 gap indent k v kvs)
  show ?case
  proof (intro impI allI)
    fix p
    assume g: "gap = []" and p: "p \<in> set (SerializeJSONObject gap indent ((k, v) # kvs))"
    show "scan 0 p \<in> {0, 2}"
    proof (cases "SerializeJSONProperty gap indent v")
      case None
      then show ?thesis using p g "11.IH"(2) by auto
    next
      case (Some s)
      from p Some g consider "p = QuoteJSONString k @ '':'' @ s"
        | "p \<in> set (SerializeJSONObject gap indent kvs)" by auto
      then show ?thesis
      proof cases
        case 1
        have "scan 0 (QuoteJSONString k) \<in> {0, 2}" by (rule scan_QuoteJSONString) simp
        then have "scan_step (scan 0 (QuoteJSONString k)) CHR '':'' \<in> {0, 3}"
          by (auto simp: scan_step_def)
        then have "scan (scan_step (scan 0 (QuoteJSONString k)) CHR '':'') s \<in> {0, 2}"
          using "11.IH"(1) g Some by auto
        then show ?thesis using 1 by simp
      next
        case 2
        then show ?thesis using g Some "11.IH"(3) by auto
      qed
    qed
  qed
qed

lemma JSON_stringify_no_wildcard_text:
  "JSON_stringify v = Some s \<Longrightarrow> \<not> str_includes s wildcard_needle"
proof -
  assume "JSON_stringify v = Some s"
  then have "scan 0 s \<in> {0, 2}" using serialize_scan(1) [of "[]" "[]" v]
    by (simp add: JSON_stringify_def)
  then have "scan 0 s \<noteq> 4" by auto
  then show ?thesis by (rule needle_not_found)
qed

lemma role_policies_loop_never_fails:
  "role_policies_loop a rn ns chk = (c, x) \<Longrightarrow> v \<in> set (check.checks c) \<Longrightarrow>
     v \<in> set (check.checks chk) \<or> status v = PASS"
proof (induction ns arbitrary: chk)
  case Nil
  then show ?case by simp
next
  case (Cons n ns)
  show ?case
  proof (cases "getRolePolicy a (JObj [(''RoleName'', rn), (''PolicyName'', n)])")
    case (Inl e)
    then show ?thesis using Cons.prems by auto
  next
    case pol: (Inr policy)
    show ?thesis
    proof (cases "js_get policy ''PolicyDocument''")
      case (Inl e)
      then show ?thesis using Cons.prems pol by auto
    next
      case doc: (Inr doc)
      show ?thesis
      proof (cases "JSON_stringify doc")
        case None
        then show ?thesis using Cons.prems pol doc by (auto simp: js_includes_def)
      next
        case (Some s)
        let ?chk = "push chk \<lparr>name = ''policy-'' @ js_toString n, status = PASS, details = None\<rparr>"
        have "\<not> str_includes s wildcard_needle"
          using Some by (rule JSON_stringify_no_wildcard_text)
        then have "role_policies_loop a rn ns ?chk = (c, x)"
          using Cons.prems(1) pol doc Some by (simp add: js_includes_def)
        from Cons.IH [OF this Cons.prems(2)] show ?thesis by (auto simp: push_def)
      qed
    qed
  qed
qed

lemma checkIAMRole_never_fails:
  assumes "fst (checkIAMRole a role w) = Inr c" and "v \<in> set (check.checks c)"
  shows "status v \<noteq> FAIL"
proof -
  from assms obtain rn where rn: "js_get role ''RoleName'' = Inr rn"
    by (auto simp: checkIAMRole_fst split: sum.splits)
  let ?chk = "\<lparr>resourceType = ''IAMRole'', resourceId = rn, checks = []\<rparr>"
  obtain c' x where t: "iam_try a rn ?chk = (c', x)" by (cases "iam_try a rn ?chk")
  have c': "status u = PASS" if "u \<in> set (check.checks c')" for u
  proof (cases "\<exists>ns. iam_try a rn ?chk = role_policies_loop a rn ns ?chk")
    case True
    then obtain ns where "role_policies_loop a rn ns ?chk = (c', x)" using t by auto
    from role_policies_loop_never_fails [OF this that] show ?thesis by simp
  next
    case False
    then have "\<And>ns. role_policies_loop a rn ns ?chk \<noteq> (c', x)" using t by metis
    then have "c' = ?chk" using t by (auto simp: iam_try_def split: sum.splits)
    then show ?thesis using that by simp
  qed
  show ?thesis
  proof (cases x)
    case None
    then have "c = c'" using assms rn t by (simp add: checkIAMRole_fst)
    then show ?thesis using c' assms(2) by auto
  next
    case (Some e)
    then have "c = push c' \<lparr>name = ''role-check'', status = ERROR, details = Some (message e)\<rparr>"
      using assms rn t by (simp add: checkIAMRole_fst)
    then show ?thesis using c' assms(2) by (auto simp: push_def)
  qed
qed

section \<open>The alert's details and the readable policies\<close>

lemma status_string_case:
  "status_string st = (case st of PASS \<Rightarrow> ''PASS'' | FAIL \<Rightarrow> ''FAIL'' | ERROR \<Rightarrow> ''ERROR'')"
  by (cases st) simp_all

lemma results_js_explicit:
  "results_js r =
     JObj [(''timestamp'', JStr (timestamp r)),
           (''environment'', environment r),
           (''checks'', JArr (map (\<lambda>c. JObj
              [(''resourceType'', JStr (resourceType c)),
               (''resourceId'', resourceId c),
               (''checks'', JArr (map (\<lambda>v. JObj
                  [(''name'', JStr (name v)),
                   (''status'', JStr (case status v of
                      PASS \<Rightarrow> ''PASS'' | FAIL \<Rightarrow> ''FAIL'' | ERROR \<Rightarrow> ''ERROR'')),
                   (''details'', case details v of None \<Rightarrow> JNull | Some d \<Rightarrow> JStr d)])
                  (check.checks c)))]) (results.checks r)))]"
  by (simp add: results_js_def check_js_def verdict_js_def status_string_case)




section \<open>The claims\<close>

subsection \<open>C1\<close>

text \<open>
  Claim C1. Every error raised while a resource is evaluated is recovered into an ERROR
  verdict, and no exception leaves \<^verbatim>\<open>runSecurityChecks\<close>, also for a security group
  whose fields are missing. The bucket, role and cluster checks do recover their errors
  in a \<^verbatim>\<open>catch\<close> block; \<^verbatim>\<open>checkSecurityGroup\<close> has none. For a security group
  without \<^verbatim>\<open>IpPermissions\<close> the run ends with the \<^verbatim>\<open>TypeError\<close> of the call
  \<^verbatim>\<open>sg.IpPermissions.some\<close>, whatever the services answer, and no results are returned.
\<close>

theorem runSecurityChecks_malformed_security_group_throws:
  "fst (runSecurityChecks a
          \<lparr>securityGroups = [JObj [(''GroupId'', JStr ''sg-1'')]],
           s3Buckets = [], iamRoles = [], eksClusters = []\<rparr> w)
   = Inl (TypeError ''Cannot read properties of undefined (reading 'some')'')"
  by (simp add: runSecurityChecks_def checkSecurityGroup_def)

subsection \<open>C2\<close>

text \<open>
  Claim C2, as stated, at a concrete bucket: the public access response has no
  \<^verbatim>\<open>PublicAccessBlockConfiguration\<close>. The bucket's only verdict is the ERROR verdict
  \<^verbatim>\<open>bucket-check\<close>; there is no \<^verbatim>\<open>public-access\<close> verdict and the encryption check,
  which sits later in the same \<^verbatim>\<open>try\<close> block, does not produce a verdict.
\<close>

theorem checkS3Bucket_missing_block_only_error_verdict:
  "fst (checkS3Bucket example_aws example_bucket example_world) =
     Inr \<lparr>resourceType = ''S3Bucket'', resourceId = JStr ''cloudsecdemo-data'',
          checks = [\<lparr>name = ''bucket-check'', status = ERROR,
                     details = Some ''Cannot read properties of undefined (reading 'BlockPublicAcls')''\<rparr>]\<rparr>"
  by (simp add: checkS3Bucket_def s3_try_def example_aws_def example_bucket_def push_def)

text \<open>
  Claim C2, amended. For every bucket whose public access response lacks
  \<^verbatim>\<open>PublicAccessBlockConfiguration\<close>, the bucket check does not throw and yields
  exactly one verdict, \<^verbatim>\<open>bucket-check\<close> with status ERROR and the error's message.
  The error is isolated to that bucket: the run over a batch that contains the bucket
  ends as the run over the batch without it does, with the bucket's record inserted at
  the bucket's position and every other record unchanged.
\<close>

theorem checkS3Bucket_missing_block_isolated:
  assumes nm: "js_get bucket ''Name'' = Inr nm"
    and pa: "getBucketPublicAccessBlock a (JObj [(''Bucket'', nm)]) = Inr publicAccess"
    and missing: "js_get publicAccess ''PublicAccessBlockConfiguration'' = Inr JUndefined"
    and batch: "s3Buckets rs = before @ bucket # after"
  shows "fst (checkS3Bucket a bucket w) =
           Inr \<lparr>resourceType = ''S3Bucket'', resourceId = nm,
                checks = [\<lparr>name = ''bucket-check'', status = ERROR,
                           details = Some ''Cannot read properties of undefined (reading 'BlockPublicAcls')''\<rparr>]\<rparr>
         \<and> verdicts_of (runSecurityChecks a rs w) =
             (case verdicts_of (runSecurityChecks a (rs\<lparr>s3Buckets := before @ after\<rparr>) w) of
                Inl e \<Rightarrow> Inl e
              | Inr cs \<Rightarrow>
                  Inr (take (length (securityGroups rs) + length before) cs
                       @ \<lparr>resourceType = ''S3Bucket'', resourceId = nm,
                          checks = [\<lparr>name = ''bucket-check'', status = ERROR,
                                     details = Some ''Cannot read properties of undefined (reading 'BlockPublicAcls')''\<rparr>]\<rparr>
                       # drop (length (securityGroups rs) + length before) cs))"
proof -
  let ?c = "\<lparr>resourceType = ''S3Bucket'', resourceId = nm,
                checks = [\<lparr>name = ''bucket-check'', status = ERROR,
                           details = Some ''Cannot read properties of undefined (reading 'BlockPublicAcls')''\<rparr>]\<rparr>"
  have c: "fst (checkS3Bucket a bucket w) = Inr ?c"
    using checkS3Bucket_missing_block [OF nm pa missing, of w] by simp
  let ?xs = "map checkSecurityGroup (securityGroups rs) @ map (\<lambda>b. fst (checkS3Bucket a b w)) before"
  let ?ys = "map (\<lambda>b. fst (checkS3Bucket a b w)) after
        @ map (\<lambda>r. fst (checkIAMRole a r w)) (iamRoles rs)
        @ map (\<lambda>c. fst (checkEKSCluster a c w)) (eksClusters rs)"
  have A: "verdicts_of (runSecurityChecks a rs w) = sequence_sum (?xs @ Inr ?c # ?ys)"
    by (simp add: run_verdicts [of a rs w w] batch c)
  have B: "verdicts_of (runSecurityChecks a (rs\<lparr>s3Buckets := before @ after\<rparr>) w)
      = sequence_sum (?xs @ ?ys)"
    by (simp add: run_verdicts [of a _ w w])
  have L: "length ?xs = length (securityGroups rs) + length before" by simp
  have "sequence_sum (?xs @ Inr ?c # ?ys) =
      (case sequence_sum (?xs @ ?ys) of
         Inl e \<Rightarrow> Inl e
       | Inr cs \<Rightarrow> Inr (take (length (securityGroups rs) + length before) cs
                        @ ?c # drop (length (securityGroups rs) + length before) cs))"
    using sequence_sum_insert [of ?xs ?c ?ys] by (simp only: L)
  then have "verdicts_of (runSecurityChecks a rs w) =
      (case verdicts_of (runSecurityChecks a (rs\<lparr>s3Buckets := before @ after\<rparr>) w) of
         Inl e \<Rightarrow> Inl e
       | Inr cs \<Rightarrow> Inr (take (length (securityGroups rs) + length before) cs
                        @ ?c # drop (length (securityGroups rs) + length before) cs))"
    by (simp only: A B)
  with c show ?thesis by (rule conjI)
qed

text \<open>
  An instance of the amended C2: the example bucket in a batch with one security group.
\<close>

theorem checkS3Bucket_missing_block_isolated_witness:
  "fst (checkS3Bucket example_aws example_bucket example_world) =
           Inr \<lparr>resourceType = ''S3Bucket'', resourceId = JStr ''cloudsecdemo-data'',
                checks = [\<lparr>name = ''bucket-check'', status = ERROR,
                           details = Some ''Cannot read properties of undefined (reading 'BlockPublicAcls')''\<rparr>]\<rparr>
   \<and> verdicts_of (runSecurityChecks example_aws
         \<lparr>securityGroups = [example_open_group], s3Buckets = [example_bucket],
          iamRoles = [], eksClusters = []\<rparr> example_world) =
       Inr [\<lparr>resourceType = ''SecurityGroup'', resourceId = JStr ''sg-1'',
             checks = [\<lparr>name = ''open-ports'', status = FAIL,
                        details = Some ''Security group has ports open to 0.0.0.0/0''\<rparr>]\<rparr>,
            \<lparr>resourceType = ''S3Bucket'', resourceId = JStr ''cloudsecdemo-data'',
             checks = [\<lparr>name = ''bucket-check'', status = ERROR,
                        details = Some ''Cannot read properties of undefined (reading 'BlockPublicAcls')''\<rparr>]\<rparr>]"
proof -
  let ?rs = "\<lparr>securityGroups = [example_open_group], s3Buckets = [example_bucket],
          iamRoles = [], eksClusters = []\<rparr>"
  have h1: "js_get example_bucket ''Name'' = Inr (JStr ''cloudsecdemo-data'')"
    by (simp add: example_bucket_def)
  have h2: "getBucketPublicAccessBlock example_aws (JObj [(''Bucket'', JStr ''cloudsecdemo-data'')])
              = Inr (JObj [])"
    by (simp add: example_aws_def)
  have h3: "js_get (JObj []) ''PublicAccessBlockConfiguration'' = Inr JUndefined" by simp
  have h4: "s3Buckets ?rs = [] @ example_bucket # []" by simp
  have rest: "verdicts_of (runSecurityChecks example_aws (?rs\<lparr>s3Buckets := [] @ []\<rparr>) example_world)
      = Inr [\<lparr>resourceType = ''SecurityGroup'', resourceId = JStr ''sg-1'',
             checks = [\<lparr>name = ''open-ports'', status = FAIL,
                        details = Some ''Security group has ports open to 0.0.0.0/0''\<rparr>]\<rparr>]"
    by (simp add: verdicts_of_def runSecurityChecks_def checkSecurityGroup_def
        example_open_group_def perm_is_open_def cidr_is_open_def push_def)
  show ?thesis
    using checkS3Bucket_missing_block_isolated [OF h1 h2 h3 h4, of example_world] rest
    by simp
qed

subsection \<open>C3\<close>

text \<open>
  Claim C3. The role check is to yield FAIL for an inline policy whose document has an
  \<^verbatim>\<open>Action\<close> of \<^verbatim>\<open>"*"\<close>. The function searches the text
  \<^verbatim>\<open>"Action": "*"\<close>, with a space after the colon, in \<^verbatim>\<open>JSON.stringify\<close> of the
  document, which puts no space there: the document
  \<^verbatim>\<open>{"Action": "*", "Effect": "Allow"}\<close> is serialised as
  \<^verbatim>\<open>{"Action":"*","Effect":"Allow"}\<close> and the verdict is PASS.
\<close>

theorem checkIAMRole_wildcard_document_passes:
  "fst (checkIAMRole example_aws example_role w) =
     Inr \<lparr>resourceType = ''IAMRole'', resourceId = JStr ''cloudsecdemo-app'',
          checks = [\<lparr>name = ''policy-admin'', status = PASS, details = None\<rparr>]\<rparr>"
  by (simp add: checkIAMRole_def iam_try_def example_aws_def example_role_def push_def
      js_includes_def JSON_stringify_def wrap_def QuoteJSONString_def quote_char_def
      wildcard_needle_def dq_def bs_def)

subsection \<open>C4\<close>

text \<open>
  Claim C4. The value sent to CloudWatch under the metric name
  \<^verbatim>\<open>SecurityCheckFailures\<close> is the number of verdicts of the run whose status is FAIL:
  verdicts with status PASS or ERROR are not counted. The request is sent once per
  call of \<^verbatim>\<open>processResults\<close>, whatever the services answer.
\<close>

theorem processResults_publishes_fail_count:
  "metric_requests (snd (processResults a r w)) =
     metric_requests w @
       [JObj [(''Namespace'', JStr ''CloudSecDemo''),
              (''MetricData'', JArr [JObj
                 [(''MetricName'', JStr ''SecurityCheckFailures''),
                  (''Value'', JNum (int (length (filter (\<lambda>v. status v = FAIL) (all_verdicts r))))),
                  (''Unit'', JStr ''Count''),
                  (''Dimensions'', JArr [JObj
                     [(''Name'', JStr ''Environment''),
                      (''Value'', ENVIRONMENT w)]])]])]]"
  by (simp add: processResults_def Let_def sendAlert_metric_requests count_failures_eq
      metric_request_def split: option.splits)

subsection \<open>C5\<close>

text \<open>
  Claim C5, as stated, at concrete results with one FAIL verdict and CloudWatch
  rejecting the metric: \<^verbatim>\<open>processResults\<close> awaits \<^verbatim>\<open>putMetricData\<close> before it
  looks at the number of failures, so the rejection leaves the function and no alert is
  sent although the number of FAIL verdicts is positive.
\<close>

theorem processResults_metric_rejected_no_alert:
  "count_failures example_results = 1
   \<and> fst (processResults example_aws_metric_rejected example_results example_world)
       = Inl (AWSError ''Rate exceeded'')
   \<and> sns_requests (snd (processResults example_aws_metric_rejected example_results example_world))
       = []"
  by (simp add: count_failures_def example_results_def processResults_def
      example_aws_metric_rejected_def example_aws_def example_world_def)

text \<open>
  Claim C5, amended. After every check run \<^verbatim>\<open>processResults\<close> sends an alert to SNS
  if and only if the number of FAIL verdicts is positive and CloudWatch has accepted
  the metric request. The alert's message is the serialisation, indented by two spaces,
  of an object that holds the message with the number of failures, the severity
  \<^verbatim>\<open>HIGH\<close>, the timestamp of the moment of sending, and as \<^verbatim>\<open>details\<close> the whole
  results: their timestamp, environment, and every resource's type, id and verdicts
  with name, status and details.
\<close>

theorem processResults_alert_iff_failures_and_metric_accepted:
  "\<exists>payload.
     JSON_stringify_indent 2
       (JObj [(''message'', JStr (''Found ''
                 @ string_of_nat (length (filter (\<lambda>v. status v = FAIL) (all_verdicts r)))
                 @ '' security check failures'')),
              (''severity'', JStr ''HIGH''),
              (''timestamp'', JStr (now w)),
              (''details'', JObj
                 [(''timestamp'', JStr (timestamp r)),
                  (''environment'', environment r),
                  (''checks'', JArr (map (\<lambda>c. JObj
                     [(''resourceType'', JStr (resourceType c)),
                      (''resourceId'', resourceId c),
                      (''checks'', JArr (map (\<lambda>v. JObj
                         [(''name'', JStr (name v)),
                          (''status'', JStr (case status v of
                             PASS \<Rightarrow> ''PASS'' | FAIL \<Rightarrow> ''FAIL'' | ERROR \<Rightarrow> ''ERROR'')),
                          (''details'', case details v of None \<Rightarrow> JNull | Some d \<Rightarrow> JStr d)])
                         (check.checks c)))]) (results.checks r)))])]) = Some payload
     \<and> sns_requests (snd (processResults a r w)) =
         (if putMetricData a
               (JObj [(''Namespace'', JStr ''CloudSecDemo''),
                      (''MetricData'', JArr [JObj
                         [(''MetricName'', JStr ''SecurityCheckFailures''),
                          (''Value'', JNum (int (length
                              (filter (\<lambda>v. status v = FAIL) (all_verdicts r))))),
                          (''Unit'', JStr ''Count''),
                          (''Dimensions'', JArr [JObj
                             [(''Name'', JStr ''Environment''),
                              (''Value'', ENVIRONMENT w)]])]])]) = None
             \<and> 0 < length (filter (\<lambda>v. status v = FAIL) (all_verdicts r))
          then sns_requests w @
                 [JObj [(''TopicArn'', SNS_TOPIC_ARN w),
                        (''Subject'', JStr ''[HIGH] Security Check Failures''),
                        (''Message'', JStr payload)]]
          else sns_requests w)"
proof -
  let ?n = "length (filter (\<lambda>v. status v = FAIL) (all_verdicts r))"
  let ?p = "JObj [(''message'', JStr (''Found '' @ string_of_nat ?n
                                  @ '' security check failures'')),
              (''severity'', JStr ''HIGH''),
              (''timestamp'', JStr (now w)),
              (''details'', results_js r)]"
  obtain payload where p: "JSON_stringify_indent 2 ?p = Some payload"
    using serialize_object_some by blast
  have n: "count_failures r = ?n" by (rule count_failures_eq)
  have "sns_requests (snd (processResults a r w)) =
         (if putMetricData a (metric_request ?n w) = None \<and> 0 < ?n
          then sns_requests w @
                 [JObj [(''TopicArn'', SNS_TOPIC_ARN w),
                        (''Subject'', JStr ''[HIGH] Security Check Failures''),
                        (''Message'', JStr payload)]]
          else sns_requests w)"
    using p
    by (simp add: processResults_def Let_def sendAlert_def alert_payload_def log_error_def n
        split: option.splits)
  then show ?thesis using p
    by (intro exI [of _ payload]) (simp add: results_js_explicit metric_request_def)
qed

text \<open>
  An instance of the amended C5: results with one FAIL and one ERROR verdict,
  CloudWatch accepting the metric. One alert is sent, with both records in its details.
\<close>

theorem processResults_alert_iff_failures_and_metric_accepted_witness:
  "\<exists>payload.
     JSON_stringify_indent 2
       (JObj [(''message'', JStr ''Found 1 security check failures''),
              (''severity'', JStr ''HIGH''),
              (''timestamp'', JStr ''2024-01-01T00:00:00.000Z''),
              (''details'', JObj
                 [(''timestamp'', JStr ''2024-01-01T00:00:00.000Z''),
                  (''environment'', JStr ''insecure''),
                  (''checks'', JArr
                     [JObj [(''resourceType'', JStr ''SecurityGroup''),
                            (''resourceId'', JStr ''sg-1''),
                            (''checks'', JArr [JObj
                               [(''name'', JStr ''open-ports''),
                                (''status'', JStr ''FAIL''),
                                (''details'',
                                   JStr ''Security group has ports open to 0.0.0.0/0'')]])],
                      JObj [(''resourceType'', JStr ''S3Bucket''),
                            (''resourceId'', JStr ''cloudsecdemo-data''),
                            (''checks'', JArr [JObj
                               [(''name'', JStr ''bucket-check''),
                                (''status'', JStr ''ERROR''),
                                (''details'', JStr ''Access Denied'')]])]])])]) = Some payload
     \<and> sns_requests (snd (processResults example_aws example_results example_world)) =
         [JObj [(''TopicArn'', JStr ''arn:aws:sns:us-east-1:000000000000:alerts''),
                (''Subject'', JStr ''[HIGH] Security Check Failures''),
                (''Message'', JStr payload)]]"
proof -
  have len: "length (filter (\<lambda>v. status v = FAIL) (all_verdicts example_results)) = 1"
    by (simp add: all_verdicts_def example_results_def)
  have msg: "''Found '' @ string_of_nat 1 @ '' security check failures''
               = ''Found 1 security check failures''"
    by (simp add: string_of_nat.simps digit_char_def)
  have ok: "putMetricData example_aws req = None" for req
    by (simp add: example_aws_def)
  have r: "timestamp example_results = ''2024-01-01T00:00:00.000Z''"
    "environment example_results = JStr ''insecure''"
    "results.checks example_results =
       [\<lparr>resourceType = ''SecurityGroup'', resourceId = JStr ''sg-1'',
          checks = [\<lparr>name = ''open-ports'', status = FAIL,
                     details = Some ''Security group has ports open to 0.0.0.0/0''\<rparr>]\<rparr>,
        \<lparr>resourceType = ''S3Bucket'', resourceId = JStr ''cloudsecdemo-data'',
          checks = [\<lparr>name = ''bucket-check'', status = ERROR,
                     details = Some ''Access Denied''\<rparr>]\<rparr>]"
    by (simp_all add: example_results_def)
  have w: "now example_world = ''2024-01-01T00:00:00.000Z''"
    "sns_requests example_world = []"
    "SNS_TOPIC_ARN example_world = JStr ''arn:aws:sns:us-east-1:000000000000:alerts''"
    by (simp_all add: example_world_def)
  show ?thesis
    using processResults_alert_iff_failures_and_metric_accepted
      [of example_results example_world example_aws]
    unfolding len msg ok r w by simp
qed

subsection \<open>C6\<close>

text \<open>
  Claim C6. For a security group as the EC2 API describes it (an array of permissions,
  each with an array of range objects), the check yields the single verdict
  \<^verbatim>\<open>open-ports\<close>, with status FAIL when some permission has a range whose
  \<^verbatim>\<open>CidrIp\<close> is exactly \<^verbatim>\<open>0.0.0.0/0\<close>, and with status PASS otherwise.
\<close>

theorem checkSecurityGroup_open_ports:
  assumes "js_get sg ''GroupId'' = Inr gid"
    and "js_get sg ''IpPermissions'' = Inr (JArr perms)"
    and "\<forall>p\<in>set perms. wellformed_permission p"
  shows "checkSecurityGroup sg =
           Inr \<lparr>resourceType = ''SecurityGroup'', resourceId = gid,
                checks = [\<lparr>name = ''open-ports'',
                           status = (if \<exists>p\<in>set perms. open_permission p then FAIL else PASS),
                           details = (if \<exists>p\<in>set perms. open_permission p
                                      then Some ''Security group has ports open to 0.0.0.0/0''
                                      else None)\<rparr>]\<rparr>"
  using assms by (simp add: checkSecurityGroup_def array_some_perms push_def)

text \<open>
  An instance of C6: a group with one private and one open permission.
\<close>

theorem checkSecurityGroup_open_ports_witness:
  "wellformed_permission (JObj [(''IpRanges'', JArr [JObj [(''CidrIp'', JStr ''10.0.0.0/16'')]])])
   \<and> wellformed_permission (JObj [(''IpRanges'', JArr [JObj [(''CidrIp'', JStr ''0.0.0.0/0'')]])])
   \<and> checkSecurityGroup example_open_group =
       Inr \<lparr>resourceType = ''SecurityGroup'', resourceId = JStr ''sg-1'',
            checks = [\<lparr>name = ''open-ports'', status = FAIL,
                       details = Some ''Security group has ports open to 0.0.0.0/0''\<rparr>]\<rparr>"
proof -
  let ?perms = "[JObj [(''IpRanges'', JArr [JObj [(''CidrIp'', JStr ''10.0.0.0/16'')]])],
                 JObj [(''IpRanges'', JArr [JObj [(''CidrIp'', JStr ''0.0.0.0/0'')]])]]"
  have h1: "js_get example_open_group ''GroupId'' = Inr (JStr ''sg-1'')"
    by (simp add: example_open_group_def)
  have h2: "js_get example_open_group ''IpPermissions'' = Inr (JArr ?perms)"
    by (simp add: example_open_group_def)
  have h3: "\<forall>p\<in>set ?perms. wellformed_permission p"
    by (simp add: wellformed_permission_def)
  have op: "\<exists>p\<in>set ?perms. open_permission p"
    by (simp add: open_permission_def)
  show ?thesis
    using checkSecurityGroup_open_ports [OF h1 h2 h3] h3 op by simp
qed

subsection \<open>C7\<close>

text \<open>
  Claim C7. A batch of one cluster whose description has
  \<^verbatim>\<open>resourcesVpcConfig.endpointPrivateAccess = false\<close>, no \<^verbatim>\<open>encryptionConfig\<close> and
  \<^verbatim>\<open>logging.clusterLogging = [{type: "api", enabled: false}]\<close>: the run returns one
  record for the cluster with exactly three verdicts, all FAIL, in the order
  \<^verbatim>\<open>private-endpoint\<close>, \<^verbatim>\<open>encryption\<close>, \<^verbatim>\<open>logging\<close>, and logs nothing.
\<close>

theorem runSecurityChecks_insecure_cluster:
  assumes "describeCluster a (JObj [(''name'', clusterName)]) = Inr cluster"
    and "js_get cluster ''cluster'' = Inr c"
    and "js_get c ''resourcesVpcConfig'' = Inr vpc"
    and "js_get vpc ''endpointPrivateAccess'' = Inr (JBool False)"
    and "js_get c ''encryptionConfig'' = Inr JUndefined"
    and "js_get c ''logging'' = Inr lg"
    and "js_get lg ''clusterLogging'' = Inr (JArr [JObj [(''type'', JStr ''api''), (''enabled'', JBool False)]])"
  shows "runSecurityChecks a
           \<lparr>securityGroups = [], s3Buckets = [], iamRoles = [], eksClusters = [clusterName]\<rparr> w =
         (Inr \<lparr>timestamp = now w, environment = ENVIRONMENT w,
               checks = [\<lparr>resourceType = ''EKSCluster'', resourceId = clusterName,
                  checks = [\<lparr>name = ''private-endpoint'', status = FAIL,
                              details = Some ''Private endpoint access configuration''\<rparr>,
                            \<lparr>name = ''encryption'', status = FAIL,
                              details = Some ''Encryption configuration''\<rparr>,
                            \<lparr>name = ''logging'', status = FAIL,
                              details = Some ''Control plane logging configuration''\<rparr>]\<rparr>]\<rparr>, w)"
  using assms
  by (simp add: runSecurityChecks_def checkEKSCluster_def eks_try_def cluster_field_def
      logging_enabled_def push_def)

text \<open>
  An instance of C7: the example cluster.
\<close>

theorem runSecurityChecks_insecure_cluster_witness:
  "runSecurityChecks example_aws
           \<lparr>securityGroups = [], s3Buckets = [], iamRoles = [], eksClusters = [JStr ''cloudsecdemo-eks'']\<rparr> example_world =
         (Inr \<lparr>timestamp = now example_world, environment = ENVIRONMENT example_world,
               checks = [\<lparr>resourceType = ''EKSCluster'', resourceId = JStr ''cloudsecdemo-eks'',
                  checks = [\<lparr>name = ''private-endpoint'', status = FAIL,
                              details = Some ''Private endpoint access configuration''\<rparr>,
                            \<lparr>name = ''encryption'', status = FAIL,
                              details = Some ''Encryption configuration''\<rparr>,
                            \<lparr>name = ''logging'', status = FAIL,
                              details = Some ''Control plane logging configuration''\<rparr>]\<rparr>]\<rparr>, example_world)"
proof -
  let ?vpc = "JObj [(''endpointPrivateAccess'', JBool False)]"
  let ?logs = "JArr [JObj [(''type'', JStr ''api''), (''enabled'', JBool False)]]"
  let ?lg = "JObj [(''clusterLogging'', ?logs)]"
  let ?c = "JObj [(''resourcesVpcConfig'', ?vpc), (''logging'', ?lg)]"
  have h1: "describeCluster example_aws (JObj [(''name'', JStr ''cloudsecdemo-eks'')])
              = Inr example_cluster"
    by (simp add: example_aws_def)
  have h2: "js_get example_cluster ''cluster'' = Inr ?c"
    by (simp add: example_cluster_def)
  have h3: "js_get ?c ''resourcesVpcConfig'' = Inr ?vpc" by simp
  have h4: "js_get ?vpc ''endpointPrivateAccess'' = Inr (JBool False)" by simp
  have h5: "js_get ?c ''encryptionConfig'' = Inr JUndefined" by simp
  have h6: "js_get ?c ''logging'' = Inr ?lg" by simp
  have h7: "js_get ?lg ''clusterLogging'' = Inr ?logs" by simp
  show ?thesis
    using runSecurityChecks_insecure_cluster [OF h1 h2 h3 h4 h5 h6 h7, of example_world] .
qed

subsection \<open>C8\<close>



subsection \<open>C9\<close>

text \<open>
  Claim C9. The verdicts of a run (the timestamp and the environment name set aside)
  depend on the batch and on the answers of the services only, not on the clock, the
  environment variables or the log: two runs from any two states of the process give
  the same verdicts, or end with the same exception, and so does a second run started
  where the first one ended. The same holds for each check function on one resource.
\<close>

theorem runSecurityChecks_deterministic:
  "verdicts_of (runSecurityChecks a rs w) = verdicts_of (runSecurityChecks a rs w')
   \<and> verdicts_of (runSecurityChecks a rs (snd (runSecurityChecks a rs w)))
       = verdicts_of (runSecurityChecks a rs w)
   \<and> fst (checkS3Bucket a b w) = fst (checkS3Bucket a b w')
   \<and> fst (checkIAMRole a r w) = fst (checkIAMRole a r w')
   \<and> fst (checkEKSCluster a cn w) = fst (checkEKSCluster a cn w')"
  by (simp add: run_verdicts [of a rs _ w] checkS3Bucket_fst checkIAMRole_fst checkEKSCluster_fst)

subsection \<open>C10\<close>




end
